theory Spec2Isabelle
  imports Complex_Main
begin

section \<open>The magnetic survey: data model\<close>

text \<open>
  A shallow embedding of \<^verbatim>\<open>SimPEG/potential_fields/magnetics/survey.py\<close>, class
  \<^verbatim>\<open>MagneticSurvey\<close>. Every Python exception the methods can raise is a value.
\<close>

datatype py_error = IndexError | KeyError | ValueError | AttributeError

text \<open>
  The value stored under a component name: \<^verbatim>\<open>None\<close>, or a numpy array of booleans
  over the receiver's locations.
\<close>

datatype mask = PyNone | BoolArray "bool list"

text \<open>
  A receiver: its \<^verbatim>\<open>locations\<close>, an (N, 3) array kept as the list of its N rows, and
  its \<^verbatim>\<open>components\<close>, a dict kept as the list of its items in insertion order
  (a dict holds each key once).
\<close>

record receiver =
  locations :: "(real \<times> real \<times> real) list"
  components :: "(string \<times> mask) list"

text \<open>
  The source field: the ordered receivers and the inducing field (intensity,
  inclination, declination).
\<close>

record SourceField =
  receiver_list :: "receiver list"
  parameters :: "real \<times> real \<times> real"

text \<open>
  What the attribute \<^verbatim>\<open>_vnD\<close> can hold: the Python list the loop appends to, or the
  numpy array made from it by \<^verbatim>\<open>np.asarray\<close>.
\<close>

datatype vnD_value = PyList "int list" | IntArray "int list"

text \<open>
  The survey object. \<open>vnD_cache\<close> is the attribute \<^verbatim>\<open>_vnD\<close>; \<open>None\<close> stands for the
  attribute being absent or \<^verbatim>\<open>None\<close>, which \<^verbatim>\<open>getattr(self, '_vnD', None) is None\<close>
  does not tell apart.
\<close>

record MagneticSurvey =
  source_field :: SourceField
  vnD_cache :: "vnD_value option"

text \<open>
  What a property access does: the value it returns or the exception it raises, the
  survey object afterwards, and the values handed to \<^verbatim>\<open>print\<close>, one per call.
\<close>

record 'a outcome =
  result :: "py_error + 'a"
  self_after :: MagneticSurvey
  printed :: "int list list"

section \<open>The methods\<close>

text \<open>
  \<^verbatim>\<open>__init__(self, source_field, **kwargs)\<close> stores the source field and calls
  \<^verbatim>\<open>BaseSurvey.__init__(self, **kwargs)\<close>. The base class is not part of the sources
  at hand and is handed the keyword arguments only, so what it does with them is a
  parameter: \<open>None\<close> when it returns, \<open>Some e\<close> when it raises \<open>e\<close>.
\<close>

definition MagneticSurvey_init ::
  "py_error option \<Rightarrow> SourceField \<Rightarrow> py_error + MagneticSurvey" where
  "MagneticSurvey_init base_init sf =
     (let self = \<lparr>source_field = sf, vnD_cache = None\<rparr> in
      case base_init of
        Some e \<Rightarrow> Inl e
      | None \<Rightarrow> Inr self)"

text \<open>
  \<^verbatim>\<open>eval(self, fields)\<close>: \<^verbatim>\<open>return fields\<close>. The argument is written \<open>flds\<close>.
\<close>

definition eval_fields :: "MagneticSurvey \<Rightarrow> 'f \<Rightarrow> 'f" where
  "eval_fields self flds = flds"

text \<open>
  \<^verbatim>\<open>self.source_field.receiver_list[0]\<close>: indexing an empty list raises
  \<^verbatim>\<open>IndexError\<close>.
\<close>

definition first_receiver :: "MagneticSurvey \<Rightarrow> py_error + receiver" where
  "first_receiver self =
     (case receiver_list (source_field self) of
        [] \<Rightarrow> Inl IndexError
      | r # _ \<Rightarrow> Inr r)"

text \<open>\<^verbatim>\<open>nRx\<close>: \<^verbatim>\<open>receiver_list[0].locations.shape[0]\<close>, the number of rows.\<close>

definition nRx :: "MagneticSurvey \<Rightarrow> py_error + int" where
  "nRx self =
     (case first_receiver self of
        Inl e \<Rightarrow> Inl e
      | Inr r \<Rightarrow> Inr (int (length (locations r))))"

text \<open>\<^verbatim>\<open>receiver_locations\<close>: \<^verbatim>\<open>receiver_list[0].locations\<close>.\<close>

definition receiver_locations ::
  "MagneticSurvey \<Rightarrow> py_error + (real \<times> real \<times> real) list" where
  "receiver_locations self =
     (case first_receiver self of
        Inl e \<Rightarrow> Inl e
      | Inr r \<Rightarrow> Inr (locations r))"

text \<open>
  The property \<^verbatim>\<open>components\<close> of the survey: \<^verbatim>\<open>receiver_list[0].components\<close>
  (named apart from the receiver's field).
\<close>

definition survey_components :: "MagneticSurvey \<Rightarrow> py_error + (string \<times> mask) list" where
  "survey_components self =
     (case first_receiver self of
        Inl e \<Rightarrow> Inl e
      | Inr r \<Rightarrow> Inr (components r))"

text \<open>
  The test \<^verbatim>\<open>if receiver.components[component]:\<close> asks for the truth value of the
  stored object. \<^verbatim>\<open>None\<close> is false. A numpy array answers by its size: an array of
  size 0 is false (numpy of the code's time warns and answers false), an array of size
  1 has the truth value of its element, and an array of more than one element raises
  \<^verbatim>\<open>ValueError\<close> (its truth value is ambiguous).
\<close>

fun truth_value :: "mask \<Rightarrow> py_error + bool" where
  "truth_value PyNone = Inr False"
| "truth_value (BoolArray []) = Inr False"
| "truth_value (BoolArray [b]) = Inr b"
| "truth_value (BoolArray (b # c # bs)) = Inl ValueError"

text \<open>
  \<^verbatim>\<open>int(receiver.components[component].sum())\<close>: the number of true entries of an
  array; \<^verbatim>\<open>None\<close> has no attribute \<^verbatim>\<open>sum\<close>.
\<close>

fun mask_sum :: "mask \<Rightarrow> py_error + int" where
  "mask_sum PyNone = Inl AttributeError"
| "mask_sum (BoolArray bs) = Inr (int (length (filter id bs)))"

text \<open>
  The body of the inner loop for one component name: the value appended to
  \<^verbatim>\<open>self._vnD\<close>, or the exception raised before anything is appended.
\<close>

definition vnD_entry :: "MagneticSurvey \<Rightarrow> receiver \<Rightarrow> string \<Rightarrow> py_error + int" where
  "vnD_entry self rx component =
     (case map_of (components rx) component of
        None \<Rightarrow> Inl KeyError
      | Some m \<Rightarrow>
          (case truth_value m of
             Inl e \<Rightarrow> Inl e
           | Inr True \<Rightarrow> mask_sum m
           | Inr False \<Rightarrow> nRx self))"

text \<open>
  \<^verbatim>\<open>for component in list(receiver.components.keys())\<close>. The list \<open>acc\<close> is
  \<^verbatim>\<open>self._vnD\<close> while the loop runs; an exception leaves it as it stands.
\<close>

fun vnD_inner ::
  "MagneticSurvey \<Rightarrow> receiver \<Rightarrow> string list \<Rightarrow> int list \<Rightarrow> py_error option \<times> int list" where
  "vnD_inner self rx [] acc = (None, acc)"
| "vnD_inner self rx (c # cs) acc =
     (case vnD_entry self rx c of
        Inl e \<Rightarrow> (Some e, acc)
      | Inr n \<Rightarrow> vnD_inner self rx cs (acc @ [n]))"

text \<open>\<^verbatim>\<open>for receiver in self.source_field.receiver_list\<close>.\<close>

fun vnD_outer ::
  "MagneticSurvey \<Rightarrow> receiver list \<Rightarrow> int list \<Rightarrow> py_error option \<times> int list" where
  "vnD_outer self [] acc = (None, acc)"
| "vnD_outer self (rx # rxs) acc =
     (case vnD_inner self rx (map fst (components rx)) acc of
        (Some e, acc') \<Rightarrow> (Some e, acc')
      | (None, acc') \<Rightarrow> vnD_outer self rxs acc')"

text \<open>
  The property \<^verbatim>\<open>vnD\<close>. With \<^verbatim>\<open>_vnD\<close> set, it is returned as it is. Otherwise
  \<^verbatim>\<open>_vnD\<close> becomes the empty list and the loops append to it; when they finish the
  list is printed, turned into an array, stored and returned. An exception inside the
  loops leaves \<^verbatim>\<open>_vnD\<close> holding the list built so far. The entries are lengths of
  arrays in memory, which a 64-bit integer holds, so the array keeps them as they are.
\<close>

definition vnD :: "MagneticSurvey \<Rightarrow> vnD_value outcome" where
  "vnD self =
     (case vnD_cache self of
        Some c \<Rightarrow> \<lparr>result = Inr c, self_after = self, printed = []\<rparr>
      | None \<Rightarrow>
          (case vnD_outer self (receiver_list (source_field self)) [] of
             (Some e, acc) \<Rightarrow>
               \<lparr>result = Inl e,
                self_after = self\<lparr>vnD_cache := Some (PyList acc)\<rparr>,
                printed = []\<rparr>
           | (None, acc) \<Rightarrow>
               \<lparr>result = Inr (IntArray acc),
                self_after = self\<lparr>vnD_cache := Some (IntArray acc)\<rparr>,
                printed = [acc]\<rparr>))"

text \<open>
  \<^verbatim>\<open>np.asarray\<close> of a list of Python integers is an array of 64-bit signed integers,
  and the \<^verbatim>\<open>sum\<close> of such an array is a 64-bit signed integer again: it wraps around
  in two's complement.
\<close>

definition int64 :: "int \<Rightarrow> int" where
  "int64 n = (n + 2 ^ 63) mod 2 ^ 64 - 2 ^ 63"

text \<open>
  The property \<^verbatim>\<open>nD\<close>: \<^verbatim>\<open>self.vnD.sum()\<close>. An array has \<^verbatim>\<open>sum\<close>; a Python list
  has not. The array made from the empty list sums to zero (numpy gives the float 0.0,
  which equals 0).
\<close>

definition nD :: "MagneticSurvey \<Rightarrow> int outcome" where
  "nD self =
     (let r = vnD self in
      case result r of
        Inl e \<Rightarrow> \<lparr>result = Inl e, self_after = self_after r, printed = printed r\<rparr>
      | Inr (PyList v) \<Rightarrow>
          \<lparr>result = Inl AttributeError, self_after = self_after r, printed = printed r\<rparr>
      | Inr (IntArray v) \<Rightarrow>
          \<lparr>result = Inr (int64 (sum_list v)), self_after = self_after r, printed = printed r\<rparr>)"

section \<open>Sequences of accesses\<close>

text \<open>
  A caller reading the two cached properties any number of times, in any order: each
  read works on the survey object the read before it left, and the printed values
  accumulate.
\<close>

datatype access = Read_vnD | Read_nD

fun read_property :: "access \<Rightarrow> MagneticSurvey \<Rightarrow> MagneticSurvey \<times> int list list" where
  "read_property Read_vnD self = (self_after (vnD self), printed (vnD self))"
| "read_property Read_nD self = (self_after (nD self), printed (nD self))"

fun read_all :: "access list \<Rightarrow> MagneticSurvey \<Rightarrow> MagneticSurvey \<times> int list list" where
  "read_all [] self = (self, [])"
| "read_all (a # as) self =
     (case read_property a self of
        (self', out) \<Rightarrow>
          (case read_all as self' of
             (self'', out') \<Rightarrow> (self'', out @ out')))"

section \<open>Concrete surveys\<close>

text \<open>
  The inducing field of the tutorial (50000 nT, inclination 90, declination 0), five
  locations on a line, and the two receivers of the scenario: total field with no mask,
  and \<^verbatim>\<open>bx\<close> with a mask of three true entries out of five.
\<close>

definition inducing_field :: "real \<times> real \<times> real" where
  "inducing_field = (50000, 90, 0)"

definition five_locations :: "(real \<times> real \<times> real) list" where
  "five_locations = [(0, 0, 10), (1, 0, 10), (2, 0, 10), (3, 0, 10), (4, 0, 10)]"

definition tmi_receiver :: receiver where
  "tmi_receiver = \<lparr>locations = five_locations, components = [(''tmi'', PyNone)]\<rparr>"

definition bx_receiver :: receiver where
  "bx_receiver =
     \<lparr>locations = five_locations,
      components = [(''bx'', BoolArray [True, True, True, False, False])]\<rparr>"

definition two_receiver_survey :: MagneticSurvey where
  "two_receiver_survey =
     \<lparr>source_field = \<lparr>receiver_list = [tmi_receiver, bx_receiver], parameters = inducing_field\<rparr>,
      vnD_cache = None\<rparr>"

text \<open>
  A receiver at one location whose masks have at most one entry, and a survey of the
  unmasked receiver followed by it.
\<close>

definition point_receiver :: receiver where
  "point_receiver =
     \<lparr>locations = [(0, 0, 10)],
      components = [(''bx'', BoolArray [True]), (''by'', BoolArray [])]\<rparr>"

definition point_survey :: MagneticSurvey where
  "point_survey =
     \<lparr>source_field = \<lparr>receiver_list = [tmi_receiver, point_receiver], parameters = inducing_field\<rparr>,
      vnD_cache = None\<rparr>"

text \<open>A source field with no receiver.\<close>

definition empty_source_field :: SourceField where
  "empty_source_field = \<lparr>receiver_list = [], parameters = inducing_field\<rparr>"

text \<open>
  The point survey with an array left in \<^verbatim>\<open>_vnD\<close> that does not belong to its
  receivers.
\<close>

definition stale_survey :: MagneticSurvey where
  "stale_survey = point_survey\<lparr>vnD_cache := Some (IntArray [7, 7])\<rparr>"

text \<open>
  The survey of the scenario with an array left in \<^verbatim>\<open>_vnD\<close>.
\<close>

definition masked_stale_survey :: MagneticSurvey where
  "masked_stale_survey = two_receiver_survey\<lparr>vnD_cache := Some (IntArray [5, 3])\<rparr>"

section \<open>Masks the truth test accepts\<close>

text \<open>
  The masks whose truth value exists: \<^verbatim>\<open>None\<close> and the arrays of at most one entry;
  and the surveys all of whose stored masks are such.
\<close>

fun truth_testable :: "mask \<Rightarrow> bool" where
  "truth_testable PyNone = True"
| "truth_testable (BoolArray bs) = (length bs \<le> 1)"

definition masks_testable :: "MagneticSurvey \<Rightarrow> bool" where
  "masks_testable self =
     list_all (\<lambda>rx. list_all (\<lambda>item. truth_testable (snd item)) (components rx))
       (receiver_list (source_field self))"

section \<open>The loops\<close>

lemma vnD_entry_source_field:
  "source_field s = source_field s' \<Longrightarrow> vnD_entry s rx c = vnD_entry s' rx c"
proof -
  assume "source_field s = source_field s'"
  then have "nRx s = nRx s'" by (simp add: nRx_def first_receiver_def)
  then show ?thesis
    by (simp add: vnD_entry_def split: option.splits sum.splits bool.splits)
qed

lemma vnD_inner_returns:
  "vnD_inner self rx cs acc = (None, acc') \<Longrightarrow>
     \<exists>v. acc' = acc @ v \<and> map Inr v = map (vnD_entry self rx) cs"
proof (induction cs arbitrary: acc)
  case Nil
  then show ?case by simp
next
  case (Cons c cs)
  from Cons.prems obtain n where n: "vnD_entry self rx c = Inr n"
    and rest: "vnD_inner self rx cs (acc @ [n]) = (None, acc')"
    by (auto split: sum.splits)
  from Cons.IH [OF rest] obtain v where "acc' = (acc @ [n]) @ v"
    and "map Inr v = map (vnD_entry self rx) cs" by blast
  then have "acc' = acc @ (n # v) \<and> map Inr (n # v) = map (vnD_entry self rx) (c # cs)"
    using n by simp
  then show ?case by blast
qed

lemma vnD_inner_raises:
  "vnD_inner self rx cs acc = (Some e, acc') \<Longrightarrow>
     \<exists>c \<in> set cs. vnD_entry self rx c = Inl e"
  by (induction cs arbitrary: acc) (auto split: sum.splits)

lemma vnD_outer_returns:
  "vnD_outer self rxs acc = (None, acc') \<Longrightarrow>
     \<exists>v. acc' = acc @ v \<and>
       map Inr v = concat (map (\<lambda>rx. map (vnD_entry self rx) (map fst (components rx))) rxs)"
proof (induction rxs arbitrary: acc)
  case Nil
  then show ?case by simp
next
  case (Cons rx rxs)
  from Cons.prems obtain mid where inner: "vnD_inner self rx (map fst (components rx)) acc = (None, mid)"
    and rest: "vnD_outer self rxs mid = (None, acc')"
    by (auto split: prod.splits option.splits)
  from vnD_inner_returns [OF inner] obtain v1 where v1: "mid = acc @ v1"
    "map Inr v1 = map (vnD_entry self rx) (map fst (components rx))" by blast
  from Cons.IH [OF rest] obtain v2 where v2: "acc' = mid @ v2"
    "map Inr v2 = concat (map (\<lambda>rx. map (vnD_entry self rx) (map fst (components rx))) rxs)"
    by blast
  have "acc' = acc @ (v1 @ v2)" using v1 v2 by simp
  moreover have "map Inr (v1 @ v2) =
      concat (map (\<lambda>rx. map (vnD_entry self rx) (map fst (components rx))) (rx # rxs))"
    using v1 v2 by simp
  ultimately show ?case by blast
qed

lemma vnD_outer_raises:
  "vnD_outer self rxs acc = (Some e, acc') \<Longrightarrow>
     \<exists>rx \<in> set rxs. \<exists>c \<in> fst ` set (components rx). vnD_entry self rx c = Inl e"
proof (induction rxs arbitrary: acc)
  case Nil
  then show ?case by simp
next
  case (Cons rx rxs)
  show ?case
  proof (cases "vnD_inner self rx (map fst (components rx)) acc")
    case (Pair err mid)
    show ?thesis
    proof (cases err)
      case None
      with Pair Cons.prems have "vnD_outer self rxs mid = (Some e, acc')" by simp
      from Cons.IH [OF this] show ?thesis by auto
    next
      case (Some e')
      with Pair Cons.prems have "e' = e" by simp
      with Pair Some vnD_inner_raises [of self rx "map fst (components rx)" acc e mid]
      show ?thesis by auto
    qed
  qed
qed

lemma vnD_entry_raises_ValueError:
  assumes "receiver_list (source_field self) \<noteq> []"
    and "c \<in> fst ` set (components rx)"
    and "vnD_entry self rx c = Inl e"
  shows "e = ValueError"
proof -
  from assms(2) obtain m where m: "map_of (components rx) c = Some m"
    by (metis domD dom_map_of_conv_image_fst)
  from assms(1) obtain n where n: "nRx self = Inr n"
    by (cases "receiver_list (source_field self)") (auto simp: nRx_def first_receiver_def)
  show ?thesis
  proof (cases m)
    case PyNone
    with m n assms(3) show ?thesis by (simp add: vnD_entry_def)
  next
    case (BoolArray bs)
    show ?thesis
    proof (cases bs)
      case Nil
      with BoolArray m n assms(3) show ?thesis by (simp add: vnD_entry_def)
    next
      case (Cons b bs')
      with BoolArray m n assms(3) show ?thesis
        by (cases bs') (auto simp: vnD_entry_def split: bool.splits)
    qed
  qed
qed

section \<open>The cached properties, one access\<close>

lemma vnD_cached:
  "vnD_cache self = Some c \<Longrightarrow> vnD self = \<lparr>result = Inr c, self_after = self, printed = []\<rparr>"
  by (simp add: vnD_def)

lemma vnD_computed:
  assumes "vnD_cache self = None"
  shows "(\<exists>e acc. vnD_outer self (receiver_list (source_field self)) [] = (Some e, acc) \<and>
            vnD self = \<lparr>result = Inl e,
                         self_after = self\<lparr>vnD_cache := Some (PyList acc)\<rparr>,
                         printed = []\<rparr>)
       \<or> (\<exists>v. vnD_outer self (receiver_list (source_field self)) [] = (None, v) \<and>
            vnD self = \<lparr>result = Inr (IntArray v),
                         self_after = self\<lparr>vnD_cache := Some (IntArray v)\<rparr>,
                         printed = [v]\<rparr>)"
proof (cases "vnD_outer self (receiver_list (source_field self)) []")
  case (Pair err acc)
  with assms show ?thesis by (cases err) (simp_all add: vnD_def)
qed

lemma vnD_fresh_layout:
  assumes "vnD_cache self = None" and "result (vnD self) = Inr r"
  shows "\<exists>v. r = IntArray v \<and>
           vnD self = \<lparr>result = Inr (IntArray v),
                        self_after = self\<lparr>vnD_cache := Some (IntArray v)\<rparr>,
                        printed = [v]\<rparr> \<and>
           map Inr v = concat (map (\<lambda>rx. map (vnD_entry self rx) (map fst (components rx)))
                         (receiver_list (source_field self)))"
proof -
  from vnD_computed [OF assms(1)] assms(2)
  obtain v where outer: "vnD_outer self (receiver_list (source_field self)) [] = (None, v)"
    and run: "vnD self = \<lparr>result = Inr (IntArray v),
                        self_after = self\<lparr>vnD_cache := Some (IntArray v)\<rparr>,
                        printed = [v]\<rparr>"
    by auto
  from vnD_outer_returns [OF outer]
  have "map Inr v = concat (map (\<lambda>rx. map (vnD_entry self rx) (map fst (components rx)))
                         (receiver_list (source_field self)))"
    by simp
  moreover from run assms(2) have "r = IntArray v" by simp
  ultimately show ?thesis using run by blast
qed

lemma vnD_source_field: "source_field (self_after (vnD self)) = source_field self"
proof (cases "vnD_cache self")
  case None
  from vnD_computed [OF this] show ?thesis by auto
next
  case (Some c)
  then show ?thesis by (simp add: vnD_cached)
qed

lemma vnD_sets_cache: "vnD_cache (self_after (vnD self)) \<noteq> None"
proof (cases "vnD_cache self")
  case None
  from vnD_computed [OF this] show ?thesis by auto
next
  case (Some c)
  then show ?thesis by (simp add: vnD_cached)
qed

lemma vnD_printed:
  "length (printed (vnD self)) \<le> (if vnD_cache self = None then 1 else 0)"
proof (cases "vnD_cache self")
  case None
  from vnD_computed [OF this] show ?thesis using None by auto
next
  case (Some c)
  then show ?thesis by (simp add: vnD_cached)
qed

lemma nD_self_after: "self_after (nD self) = self_after (vnD self)"
  by (simp add: nD_def Let_def split: sum.splits vnD_value.splits)

lemma nD_printed: "printed (nD self) = printed (vnD self)"
  by (simp add: nD_def Let_def split: sum.splits vnD_value.splits)

lemma nD_result:
  "result (nD self) =
     (case result (vnD self) of
        Inl e \<Rightarrow> Inl e
      | Inr (PyList v) \<Rightarrow> Inl AttributeError
      | Inr (IntArray v) \<Rightarrow> Inr (int64 (sum_list v)))"
  by (simp add: nD_def Let_def split: sum.splits vnD_value.splits)

lemma vnD_again:
  assumes "result (vnD self) = Inr c"
  shows "vnD (self_after (vnD self)) =
           \<lparr>result = Inr c, self_after = self_after (vnD self), printed = []\<rparr>"
proof (cases "vnD_cache self")
  case None
  from vnD_fresh_layout [OF None assms] obtain v where "c = IntArray v"
    and "vnD self = \<lparr>result = Inr (IntArray v),
                      self_after = self\<lparr>vnD_cache := Some (IntArray v)\<rparr>,
                      printed = [v]\<rparr>"
    by blast
  then show ?thesis by (simp add: vnD_cached)
next
  case (Some c')
  with assms show ?thesis by (simp add: vnD_cached)
qed

section \<open>Evaluations\<close>

text \<open>The concrete surveys, traced through the loops.\<close>

lemma vnD_point_survey:
  "vnD point_survey =
     \<lparr>result = Inr (IntArray [5, 1, 5]),
      self_after = point_survey\<lparr>vnD_cache := Some (IntArray [5, 1, 5])\<rparr>,
      printed = [[5, 1, 5]]\<rparr>"
proof -
  have n: "nRx point_survey = Inr 5"
    by (simp add: nRx_def first_receiver_def point_survey_def tmi_receiver_def
        five_locations_def)
  have "vnD_entry point_survey tmi_receiver ''tmi'' = Inr 5"
    and "vnD_entry point_survey point_receiver ''bx'' = Inr 1"
    and "vnD_entry point_survey point_receiver ''by'' = Inr 5"
    by (simp_all add: vnD_entry_def n tmi_receiver_def point_receiver_def)
  then have "vnD_outer point_survey [tmi_receiver, point_receiver] [] = (None, [5, 1, 5])"
    by (simp add: tmi_receiver_def point_receiver_def)
  moreover have "receiver_list (source_field point_survey) = [tmi_receiver, point_receiver]"
    and "vnD_cache point_survey = None"
    by (simp_all add: point_survey_def)
  ultimately show ?thesis by (simp add: vnD_def)
qed

lemma nRx_two_receiver_survey: "nRx two_receiver_survey = Inr 5"
  by (simp add: nRx_def first_receiver_def two_receiver_survey_def tmi_receiver_def
      five_locations_def)

lemma vnD_at_two_receiver_survey:
  "vnD two_receiver_survey =
     \<lparr>result = Inl ValueError,
      self_after = two_receiver_survey\<lparr>vnD_cache := Some (PyList [5])\<rparr>,
      printed = []\<rparr>"
proof -
  have tmi: "vnD_entry two_receiver_survey tmi_receiver ''tmi'' = Inr 5"
    by (simp add: vnD_entry_def nRx_two_receiver_survey tmi_receiver_def)
  have bx: "vnD_entry two_receiver_survey bx_receiver ''bx'' = Inl ValueError"
    by (simp add: vnD_entry_def bx_receiver_def)
  have "vnD_outer two_receiver_survey [tmi_receiver, bx_receiver] [] = (Some ValueError, [5])"
    using tmi bx by (simp add: tmi_receiver_def bx_receiver_def)
  moreover have "receiver_list (source_field two_receiver_survey) = [tmi_receiver, bx_receiver]"
    and "vnD_cache two_receiver_survey = None"
    by (simp_all add: two_receiver_survey_def)
  ultimately show ?thesis by (simp add: vnD_def)
qed

lemma vnD_after_failed_access:
  "result (vnD (self_after (vnD two_receiver_survey))) = Inr (PyList [5])
   \<and> result (nD (self_after (vnD two_receiver_survey))) = Inl AttributeError"
proof -
  have s: "self_after (vnD two_receiver_survey) = two_receiver_survey\<lparr>vnD_cache := Some (PyList [5])\<rparr>"
    by (simp add: vnD_at_two_receiver_survey)
  have "vnD_cache (two_receiver_survey\<lparr>vnD_cache := Some (PyList [5])\<rparr>) = Some (PyList [5])"
    by simp
  from vnD_cached [OF this] show ?thesis
    unfolding s by (simp add: nD_result)
qed

lemma vnD_no_receivers:
  assumes "receiver_list sf = []"
  shows "vnD \<lparr>source_field = sf, vnD_cache = None\<rparr> =
     \<lparr>result = Inr (IntArray []),
      self_after = \<lparr>source_field = sf, vnD_cache = Some (IntArray [])\<rparr>,
      printed = [[]]\<rparr>"
  using assms by (simp add: vnD_def)

section \<open>Construction and the delegated properties\<close>

text \<open>
  C9: \<^verbatim>\<open>eval\<close> returns its argument unchanged, whatever the survey and the fields.
\<close>

theorem eval_fields_identity: "eval_fields self flds = flds"
  by (simp add: eval_fields_def)

text \<open>
  C5: with a non-empty receiver list, \<^verbatim>\<open>nRx\<close> is the number of locations of the
  first receiver, \<^verbatim>\<open>receiver_locations\<close> is its locations array and
  \<^verbatim>\<open>components\<close> is its component dict; no later receiver is read.
\<close>

theorem delegated_to_first_receiver:
  assumes "receiver_list (source_field self) = rx # rxs"
  shows "nRx self = Inr (int (length (locations rx)))
       \<and> receiver_locations self = Inr (locations rx)
       \<and> survey_components self = Inr (components rx)"
  using assms
  by (simp add: nRx_def receiver_locations_def survey_components_def first_receiver_def)

text \<open>
  Witness for C5 at the survey of the unmasked receiver (five locations) followed by the
  point receiver.
\<close>

theorem delegated_to_first_receiver_witness:
  "receiver_list (source_field point_survey) = tmi_receiver # [point_receiver]
   \<and> nRx point_survey = Inr 5
   \<and> receiver_locations point_survey = Inr five_locations
   \<and> survey_components point_survey = Inr [(''tmi'', PyNone)]"
  using delegated_to_first_receiver [of point_survey tmi_receiver "[point_receiver]"]
  by (simp add: point_survey_def tmi_receiver_def five_locations_def)

text \<open>
  C4, as stated, at the source field with no receiver: the constructor returns a survey
  object; nothing raises.
\<close>

theorem init_empty_receiver_list_succeeds:
  "MagneticSurvey_init None empty_source_field =
     Inr \<lparr>source_field = empty_source_field, vnD_cache = None\<rparr>"
  by (simp add: MagneticSurvey_init_def)

text \<open>
  C4, amended: the constructor never looks at the receiver list. Once the base class
  has taken the keyword arguments, it returns the survey holding the given source field
  and no cached vector, whatever the receiver list; it raises only what the base class
  raises.
\<close>

theorem init_ignores_receiver_list:
  "MagneticSurvey_init None sf = Inr \<lparr>source_field = sf, vnD_cache = None\<rparr>
   \<and> MagneticSurvey_init (Some e) sf = Inl e"
  by (simp add: MagneticSurvey_init_def)

text \<open>
  C10, as stated, for \<^verbatim>\<open>vnD\<close>: with no receiver the loop body never runs, element 0
  is never indexed, and the access returns the empty vector.
\<close>

theorem vnD_empty_receiver_list_returns:
  "result (vnD \<lparr>source_field = empty_source_field, vnD_cache = None\<rparr>) = Inr (IntArray [])"
  by (simp add: vnD_def empty_source_field_def)

text \<open>
  C10, amended: with an empty receiver list construction succeeds; \<^verbatim>\<open>nRx\<close>,
  \<^verbatim>\<open>receiver_locations\<close> and \<^verbatim>\<open>components\<close> then raise \<^verbatim>\<open>IndexError\<close>, while
  \<^verbatim>\<open>vnD\<close> returns the empty vector and \<^verbatim>\<open>nD\<close> returns 0.
\<close>

theorem empty_receiver_list_deferred:
  assumes "receiver_list sf = []"
  shows "\<exists>self. MagneticSurvey_init None sf = Inr self
           \<and> nRx self = Inl IndexError
           \<and> receiver_locations self = Inl IndexError
           \<and> survey_components self = Inl IndexError
           \<and> result (vnD self) = Inr (IntArray [])
           \<and> result (nD self) = Inr 0"
proof -
  let ?self = "\<lparr>source_field = sf, vnD_cache = None\<rparr>"
  have "MagneticSurvey_init None sf = Inr ?self"
    by (simp add: MagneticSurvey_init_def)
  moreover have "nRx ?self = Inl IndexError" "receiver_locations ?self = Inl IndexError"
    "survey_components ?self = Inl IndexError"
    using assms
    by (simp_all add: nRx_def receiver_locations_def survey_components_def first_receiver_def)
  moreover have "result (vnD ?self) = Inr (IntArray [])"
    using assms by (simp add: vnD_no_receivers)
  moreover from this have "result (nD ?self) = Inr 0"
    by (simp add: nD_result int64_def)
  ultimately show ?thesis by blast
qed

text \<open>Witness for C10 at the source field with no receiver.\<close>

theorem empty_receiver_list_deferred_witness:
  "receiver_list empty_source_field = []
   \<and> (\<exists>self. MagneticSurvey_init None empty_source_field = Inr self
           \<and> nRx self = Inl IndexError
           \<and> receiver_locations self = Inl IndexError
           \<and> survey_components self = Inl IndexError
           \<and> result (vnD self) = Inr (IntArray [])
           \<and> result (nD self) = Inr 0)"
proof -
  have e: "receiver_list empty_source_field = []" by (simp add: empty_source_field_def)
  from empty_receiver_list_deferred [OF e] e show ?thesis by blast
qed

section \<open>The vector of data counts\<close>

lemma int64_in_range: "- (2 ^ 63) \<le> n \<Longrightarrow> n < 2 ^ 63 \<Longrightarrow> int64 n = n"
  by (simp add: int64_def)

lemma nD_wraps:
  "result (nD (point_survey\<lparr>vnD_cache := Some (IntArray [2 ^ 62, 2 ^ 62])\<rparr>)) = Inr (- (2 ^ 63))"
  by (simp add: nD_result vnD_cached int64_def)

lemma vnD_entry_testable:
  assumes ok: "masks_testable self"
    and rx: "rx \<in> set (receiver_list (source_field self))"
    and c: "c \<in> fst ` set (components rx)"
  shows "\<exists>n. vnD_entry self rx c = Inr n"
proof -
  from c obtain m where m: "map_of (components rx) c = Some m"
    by (metis domD dom_map_of_conv_image_fst)
  then have "(c, m) \<in> set (components rx)" by (rule map_of_SomeD)
  with ok rx have t: "truth_testable m"
    by (fastforce simp: masks_testable_def list_all_iff)
  from rx obtain n where n: "nRx self = Inr n"
    by (cases "receiver_list (source_field self)") (auto simp: nRx_def first_receiver_def)
  show ?thesis
  proof (cases m)
    case PyNone
    with m n show ?thesis by (simp add: vnD_entry_def)
  next
    case (BoolArray bs)
    with t have "bs = [] \<or> (\<exists>b. bs = [b])"
      by (cases bs) auto
    with BoolArray m n show ?thesis
      by (auto simp: vnD_entry_def split: bool.splits)
  qed
qed

lemma vnD_fresh_returns:
  assumes ok: "masks_testable self" and fresh: "vnD_cache self = None"
  shows "\<exists>v. vnD self = \<lparr>result = Inr (IntArray v),
                          self_after = self\<lparr>vnD_cache := Some (IntArray v)\<rparr>,
                          printed = [v]\<rparr>
           \<and> map Inr v = concat (map (\<lambda>rx. map (vnD_entry self rx) (map fst (components rx)))
                         (receiver_list (source_field self)))"
proof (cases "result (vnD self)")
  case (Inl e)
  with vnD_computed [OF fresh] obtain acc where
    "vnD_outer self (receiver_list (source_field self)) [] = (Some e, acc)"
    by auto
  from vnD_outer_raises [OF this] obtain rx c where
    "rx \<in> set (receiver_list (source_field self))" "c \<in> fst ` set (components rx)"
    "vnD_entry self rx c = Inl e"
    by blast
  with vnD_entry_testable [OF ok, of rx c] show ?thesis by auto
next
  case (Inr r)
  from vnD_fresh_layout [OF fresh Inr] show ?thesis by blast
qed

text \<open>
  Any mask of two or more entries, under any component of any receiver, makes the
  computation raise \<^verbatim>\<open>ValueError\<close>; and a one-entry mask holding \<^verbatim>\<open>False\<close> counts
  as no mask.
\<close>

lemma multi_element_mask_raises:
  assumes fresh: "vnD_cache self = None"
    and rx: "rx \<in> set (receiver_list (source_field self))"
    and keys: "distinct (map fst (components rx))"
    and mask: "(c, BoolArray (b # b' # bs)) \<in> set (components rx)"
  shows "result (vnD self) = Inl ValueError"
proof -
  from keys mask have "map_of (components rx) c = Some (BoolArray (b # b' # bs))"
    by (rule map_of_is_SomeI)
  then have entry: "vnD_entry self rx c = Inl ValueError"
    by (simp add: vnD_entry_def)
  from mask have c: "c \<in> fst ` set (components rx)" by force
  have nonempty: "receiver_list (source_field self) \<noteq> []" using rx by auto
  show ?thesis
  proof (cases "result (vnD self)")
    case (Inr r)
    from vnD_fresh_layout [OF fresh Inr] obtain v where
      "map Inr v = concat (map (\<lambda>rx. map (vnD_entry self rx) (map fst (components rx)))
                         (receiver_list (source_field self)))"
      by blast
    moreover from rx c have "vnD_entry self rx c \<in>
        set (concat (map (\<lambda>rx. map (vnD_entry self rx) (map fst (components rx)))
                         (receiver_list (source_field self))))"
      by auto
    ultimately have "vnD_entry self rx c \<in> set (map Inr v)" by simp
    with entry show ?thesis by auto
  next
    case (Inl e)
    with vnD_computed [OF fresh] obtain acc where
      "vnD_outer self (receiver_list (source_field self)) [] = (Some e, acc)"
      by auto
    from vnD_outer_raises [OF this] obtain rx' c' where
      "c' \<in> fst ` set (components rx')" and "vnD_entry self rx' c' = Inl e"
      by blast
    with nonempty have "e = ValueError" by (rule vnD_entry_raises_ValueError)
    with Inl show ?thesis by simp
  qed
qed

lemma false_mask_counts_all:
  "vnD_entry self \<lparr>locations = locs, components = [(c, BoolArray [False])]\<rparr> c = nRx self"
  by (simp add: vnD_entry_def)

text \<open>
  C1, at its scenario of two receivers, the first with components \<^verbatim>\<open>{tmi: None}\<close>, the
  second with \<^verbatim>\<open>{bx: mask}\<close> where the mask has 3 true entries out of 5, for which the
  claim gives \<^verbatim>\<open>vnD == [nRx, 3]\<close>: \<^verbatim>\<open>nRx\<close> is 5, the first component appends it, then
  the truth test of the five-entry mask raises \<^verbatim>\<open>ValueError\<close>. No vector is returned,
  \<^verbatim>\<open>_vnD\<close> is left holding the list \<^verbatim>\<open>[5]\<close>, and \<^verbatim>\<open>nD\<close> raises as well.
\<close>

theorem vnD_scenario_raises:
  "nRx two_receiver_survey = Inr 5
   \<and> result (vnD two_receiver_survey) = Inl ValueError
   \<and> vnD_cache (self_after (vnD two_receiver_survey)) = Some (PyList [5])
   \<and> result (nD two_receiver_survey) = Inl ValueError"
  by (simp add: nRx_two_receiver_survey vnD_at_two_receiver_survey nD_result)

text \<open>
  What holds of a read that returns: \<^verbatim>\<open>nD\<close> returns a number exactly when \<^verbatim>\<open>vnD\<close>
  returns an array, the number being the 64-bit sum of its entries; and a vector that
  is computed and returned has one entry per component of every receiver, in
  receiver-list order and, within a receiver, in the insertion order of its dict.
\<close>

lemma nD_returns_iff:
  "(result (nD self) = Inr n) =
     (\<exists>v. result (vnD self) = Inr (IntArray v) \<and> n = int64 (sum_list v))"
  by (auto simp: nD_result split: sum.splits vnD_value.splits)

lemma vnD_returned_layout:
  assumes "vnD_cache self = None" and "result (vnD self) = Inr r"
  shows "\<exists>v. r = IntArray v
           \<and> length v = sum_list (map (\<lambda>rx. length (components rx))
                                     (receiver_list (source_field self)))
           \<and> map Inr v = concat (map (\<lambda>rx. map (vnD_entry self rx) (map fst (components rx)))
                                     (receiver_list (source_field self)))"
proof -
  from vnD_fresh_layout [OF assms] obtain v where v: "r = IntArray v"
    and lay: "map Inr v = concat (map (\<lambda>rx. map (vnD_entry self rx) (map fst (components rx)))
                         (receiver_list (source_field self)))"
    by blast
  have "length v = length (map (Inr :: int \<Rightarrow> py_error + int) v)" by simp
  also have "\<dots> = sum_list (map (\<lambda>rx. length (components rx))
                                     (receiver_list (source_field self)))"
    unfolding lay by (simp add: length_concat comp_def)
  finally show ?thesis using v lay by blast
qed

text \<open>
  C2, at the survey of the scenario (components \<^verbatim>\<open>{tmi: None}\<close>, then \<^verbatim>\<open>{bx: mask}\<close>
  with a five-entry mask): \<^verbatim>\<open>nD\<close> is not the sum of the entries of \<^verbatim>\<open>vnD\<close> there.
  The first read of \<^verbatim>\<open>nD\<close> raises \<^verbatim>\<open>ValueError\<close> from the truth test of the mask and
  leaves the list \<^verbatim>\<open>[5]\<close> in \<^verbatim>\<open>_vnD\<close>. From then on \<^verbatim>\<open>vnD\<close> returns that list,
  whose entries sum to 5, while \<^verbatim>\<open>nD\<close> raises \<^verbatim>\<open>AttributeError\<close>, a list having no
  \<^verbatim>\<open>sum\<close>.
\<close>

theorem nD_scenario_never_sums:
  "result (nD two_receiver_survey) = Inl ValueError
   \<and> result (vnD (self_after (nD two_receiver_survey))) = Inr (PyList [5])
   \<and> result (nD (self_after (nD two_receiver_survey))) = Inl AttributeError"
proof -
  have "result (nD two_receiver_survey) = Inl ValueError"
    by (simp add: nD_result vnD_at_two_receiver_survey)
  moreover have "self_after (nD two_receiver_survey) = self_after (vnD two_receiver_survey)"
    by (rule nD_self_after)
  ultimately show ?thesis using vnD_after_failed_access by simp
qed

text \<open>
  C3, at the survey of the scenario, whose two receivers have one component each: the
  first read of \<^verbatim>\<open>vnD\<close> raises \<^verbatim>\<open>ValueError\<close> and returns no vector, and every later
  read returns the list \<^verbatim>\<open>[5]\<close>, of length 1, while the numbers of components of the
  receivers sum to 2.
\<close>

theorem vnD_scenario_wrong_length:
  "result (vnD two_receiver_survey) = Inl ValueError
   \<and> result (vnD (self_after (vnD two_receiver_survey))) = Inr (PyList [5])
   \<and> sum_list (map (\<lambda>rx. length (components rx))
        (receiver_list (source_field two_receiver_survey))) = 2"
proof -
  have "sum_list (map (\<lambda>rx. length (components rx))
        (receiver_list (source_field two_receiver_survey))) = 2"
    by (simp add: two_receiver_survey_def tmi_receiver_def bx_receiver_def)
  then show ?thesis
    using vnD_after_failed_access by (simp add: vnD_at_two_receiver_survey)
qed

section \<open>Effects of the cached properties\<close>

lemma read_property_source_field:
  "source_field (fst (read_property a self)) = source_field self"
  by (cases a) (simp_all add: nD_self_after vnD_source_field)

lemma read_property_sets_cache: "vnD_cache (fst (read_property a self)) \<noteq> None"
  by (cases a) (simp_all add: nD_self_after vnD_sets_cache)

lemma read_property_printed:
  "length (snd (read_property a self)) \<le> (if vnD_cache self = None then 1 else 0)"
  using vnD_printed [of self] by (cases a) (simp_all add: nD_printed)

lemma read_all_cached:
  "vnD_cache self \<noteq> None \<Longrightarrow>
     snd (read_all as self) = [] \<and> vnD_cache (fst (read_all as self)) = vnD_cache self"
proof (induction as arbitrary: self)
  case Nil
  then show ?case by simp
next
  case (Cons a as)
  from Cons.prems obtain c where c: "vnD_cache self = Some c" by auto
  then have "read_property a self = (self, [])"
    by (cases a) (simp_all add: vnD_cached nD_self_after nD_printed)
  with Cons show ?case by (simp split: prod.splits)
qed

lemma read_all_source_field:
  "source_field (fst (read_all as self)) = source_field self"
proof (induction as arbitrary: self)
  case Nil
  then show ?case by simp
next
  case (Cons a as)
  obtain s1 out1 where first: "read_property a self = (s1, out1)"
    by (cases "read_property a self")
  obtain s2 out2 where rest: "read_all as s1 = (s2, out2)"
    by (cases "read_all as s1")
  from first have "source_field s1 = source_field self"
    using read_property_source_field [of a self] by simp
  moreover from rest have "source_field s2 = source_field s1"
    using Cons.IH [of s1] by simp
  ultimately show ?case using first rest by simp
qed

text \<open>
  C6, as stated, at the point survey: the access that computes the vector hands it to
  \<^verbatim>\<open>print\<close>, an effect that is not caching.
\<close>

theorem vnD_prints: "printed (vnD point_survey) \<noteq> []"
  by (simp add: vnD_point_survey)

text \<open>
  C6, amended: reading \<^verbatim>\<open>vnD\<close> and \<^verbatim>\<open>nD\<close> any number of times, in any order,
  leaves the source field (receivers, masks, inducing field) as it was; the only
  attribute written is \<^verbatim>\<open>_vnD\<close>, and the only other effect is the print of the read
  that computes the vector: at most one value is printed in all, and none when
  \<^verbatim>\<open>_vnD\<close> was already set.
\<close>

theorem reads_change_cache_and_output_only:
  "source_field (fst (read_all as self)) = source_field self
   \<and> length (snd (read_all as self)) \<le> (if vnD_cache self = None then 1 else 0)"
proof -
  have "length (snd (read_all as self)) \<le> (if vnD_cache self = None then 1 else 0)"
  proof (cases as)
    case Nil
    then show ?thesis by simp
  next
    case (Cons a rest)
    obtain s1 out1 where first: "read_property a self = (s1, out1)"
      by (cases "read_property a self")
    obtain s2 out2 where rest: "read_all rest s1 = (s2, out2)"
      by (cases "read_all rest s1")
    have "vnD_cache s1 \<noteq> None"
      using read_property_sets_cache [of a self] first by simp
    from read_all_cached [OF this, of rest] rest have "out2 = []" by simp
    moreover have "length out1 \<le> (if vnD_cache self = None then 1 else 0)"
      using read_property_printed [of a self] first by simp
    ultimately show ?thesis using Cons first rest by simp
  qed
  then show ?thesis by (simp add: read_all_source_field)
qed

text \<open>
  C7, as stated, fails twice. \<^verbatim>\<open>nD\<close> is not cached: a number read from the point
  survey (11) is not kept, the next read follows whatever array \<^verbatim>\<open>_vnD\<close> holds (14 for
  \<^verbatim>\<open>[7, 7]\<close>). And at the survey of the scenario with \<^verbatim>\<open>_vnD\<close> cleared, the read of
  \<^verbatim>\<open>nD\<close> raises \<^verbatim>\<open>ValueError\<close> instead of returning the sum of a recomputed vector;
  after it \<^verbatim>\<open>vnD\<close> returns the list \<^verbatim>\<open>[5]\<close> while \<^verbatim>\<open>nD\<close> raises
  \<^verbatim>\<open>AttributeError\<close>.
\<close>

theorem nD_not_cached_and_disagrees:
  "result (nD point_survey) = Inr 11
   \<and> result (nD ((self_after (nD point_survey))\<lparr>vnD_cache := Some (IntArray [7, 7])\<rparr>)) = Inr 14
   \<and> result (nD (masked_stale_survey\<lparr>vnD_cache := None\<rparr>)) = Inl ValueError
   \<and> result (vnD (self_after (nD (masked_stale_survey\<lparr>vnD_cache := None\<rparr>)))) = Inr (PyList [5])
   \<and> result (nD (self_after (nD (masked_stale_survey\<lparr>vnD_cache := None\<rparr>)))) = Inl AttributeError"
proof -
  have "result (nD point_survey) = Inr 11"
    by (simp add: nD_result vnD_point_survey int64_def)
  moreover have "result (nD ((self_after (nD point_survey))\<lparr>vnD_cache := Some (IntArray [7, 7])\<rparr>)) = Inr 14"
    by (simp add: nD_result vnD_cached int64_def)
  moreover have cleared: "masked_stale_survey\<lparr>vnD_cache := None\<rparr> = two_receiver_survey"
    by (simp add: masked_stale_survey_def two_receiver_survey_def)
  moreover have "result (nD two_receiver_survey) = Inl ValueError"
    by (simp add: nD_result vnD_at_two_receiver_survey)
  moreover have "self_after (nD two_receiver_survey) = self_after (vnD two_receiver_survey)"
    by (rule nD_self_after)
  ultimately show ?thesis using vnD_after_failed_access by simp
qed

text \<open>
  C7, amended: \<^verbatim>\<open>nD\<close> has no cache of its own; it is served from the cached vector:
  with an array in \<^verbatim>\<open>_vnD\<close> it returns the 64-bit sum of that array, changes nothing
  and prints nothing. After \<^verbatim>\<open>_vnD\<close> is cleared on a survey whose stored masks are all
  \<^verbatim>\<open>None\<close> or arrays of at most one entry, the read of \<^verbatim>\<open>nD\<close> computes the vector
  anew from the source field, prints it, stores it in \<^verbatim>\<open>_vnD\<close> and returns its sum;
  the reads of \<^verbatim>\<open>vnD\<close> and \<^verbatim>\<open>nD\<close> that follow return the stored vector and the same
  sum, and compute nothing.
\<close>

theorem nD_follows_vnD_cache:
  "(vnD_cache self = Some (IntArray v) \<longrightarrow>
      nD self = \<lparr>result = Inr (int64 (sum_list v)), self_after = self, printed = []\<rparr>)
   \<and> (masks_testable self \<longrightarrow>
        (\<exists>w. map Inr w = concat (map (\<lambda>rx. map (vnD_entry self rx) (map fst (components rx)))
                      (receiver_list (source_field self)))
          \<and> nD (self\<lparr>vnD_cache := None\<rparr>) =
              \<lparr>result = Inr (int64 (sum_list w)),
               self_after = self\<lparr>vnD_cache := Some (IntArray w)\<rparr>,
               printed = [w]\<rparr>
          \<and> vnD (self\<lparr>vnD_cache := Some (IntArray w)\<rparr>) =
              \<lparr>result = Inr (IntArray w),
               self_after = self\<lparr>vnD_cache := Some (IntArray w)\<rparr>,
               printed = []\<rparr>
          \<and> nD (self\<lparr>vnD_cache := Some (IntArray w)\<rparr>) =
              \<lparr>result = Inr (int64 (sum_list w)),
               self_after = self\<lparr>vnD_cache := Some (IntArray w)\<rparr>,
               printed = []\<rparr>))"
proof (intro conjI impI)
  assume "vnD_cache self = Some (IntArray v)"
  then show "nD self = \<lparr>result = Inr (int64 (sum_list v)), self_after = self, printed = []\<rparr>"
    by (simp add: nD_def vnD_cached)
next
  let ?s = "self\<lparr>vnD_cache := None\<rparr>"
  assume "masks_testable self"
  then have ok: "masks_testable ?s" by (simp add: masks_testable_def)
  have fresh: "vnD_cache ?s = None" by simp
  from vnD_fresh_returns [OF ok fresh] obtain w where
    run: "vnD ?s = \<lparr>result = Inr (IntArray w),
                    self_after = ?s\<lparr>vnD_cache := Some (IntArray w)\<rparr>,
                    printed = [w]\<rparr>"
    and lay: "map Inr w = concat (map (\<lambda>rx. map (vnD_entry ?s rx) (map fst (components rx)))
                      (receiver_list (source_field ?s)))"
    by blast
  have "vnD_entry ?s = vnD_entry self"
    by (intro ext vnD_entry_source_field) simp
  with lay have lay': "map Inr w = concat (map (\<lambda>rx. map (vnD_entry self rx) (map fst (components rx)))
                      (receiver_list (source_field self)))"
    by simp
  let ?t = "self\<lparr>vnD_cache := Some (IntArray w)\<rparr>"
  have first: "nD ?s = \<lparr>result = Inr (int64 (sum_list w)), self_after = ?t, printed = [w]\<rparr>"
    using run by (simp add: nD_def)
  have cached: "vnD_cache ?t = Some (IntArray w)" by simp
  have again: "vnD ?t = \<lparr>result = Inr (IntArray w), self_after = ?t, printed = []\<rparr>"
    using vnD_cached [OF cached] .
  then have sum_again: "nD ?t = \<lparr>result = Inr (int64 (sum_list w)), self_after = ?t, printed = []\<rparr>"
    by (simp add: nD_def)
  from lay' first again sum_again
  show "\<exists>w. map Inr w = concat (map (\<lambda>rx. map (vnD_entry self rx) (map fst (components rx)))
                      (receiver_list (source_field self)))
          \<and> nD (self\<lparr>vnD_cache := None\<rparr>) =
              \<lparr>result = Inr (int64 (sum_list w)),
               self_after = self\<lparr>vnD_cache := Some (IntArray w)\<rparr>,
               printed = [w]\<rparr>
          \<and> vnD (self\<lparr>vnD_cache := Some (IntArray w)\<rparr>) =
              \<lparr>result = Inr (IntArray w),
               self_after = self\<lparr>vnD_cache := Some (IntArray w)\<rparr>,
               printed = []\<rparr>
          \<and> nD (self\<lparr>vnD_cache := Some (IntArray w)\<rparr>) =
              \<lparr>result = Inr (int64 (sum_list w)),
               self_after = self\<lparr>vnD_cache := Some (IntArray w)\<rparr>,
               printed = []\<rparr>"
    by blast
qed

text \<open>
  Witness for C7: the point survey with the foreign array \<^verbatim>\<open>[7, 7]\<close> cached gives 14;
  its masks have at most one entry, and cleared it computes, prints and stores the
  vector \<^verbatim>\<open>[5, 1, 5]\<close> and gives 11, as do the reads after it.
\<close>

theorem nD_follows_vnD_cache_witness:
  "vnD_cache stale_survey = Some (IntArray [7, 7])
   \<and> masks_testable stale_survey
   \<and> nD stale_survey = \<lparr>result = Inr 14, self_after = stale_survey, printed = []\<rparr>
   \<and> nD (stale_survey\<lparr>vnD_cache := None\<rparr>) =
       \<lparr>result = Inr 11,
        self_after = stale_survey\<lparr>vnD_cache := Some (IntArray [5, 1, 5])\<rparr>,
        printed = [[5, 1, 5]]\<rparr>
   \<and> vnD (stale_survey\<lparr>vnD_cache := Some (IntArray [5, 1, 5])\<rparr>) =
       \<lparr>result = Inr (IntArray [5, 1, 5]),
        self_after = stale_survey\<lparr>vnD_cache := Some (IntArray [5, 1, 5])\<rparr>,
        printed = []\<rparr>
   \<and> nD (stale_survey\<lparr>vnD_cache := Some (IntArray [5, 1, 5])\<rparr>) =
       \<lparr>result = Inr 11,
        self_after = stale_survey\<lparr>vnD_cache := Some (IntArray [5, 1, 5])\<rparr>,
        printed = []\<rparr>"
proof -
  have c: "vnD_cache stale_survey = Some (IntArray [7, 7])"
    by (simp add: stale_survey_def)
  have t: "masks_testable stale_survey"
    by (simp add: masks_testable_def stale_survey_def point_survey_def tmi_receiver_def
        point_receiver_def)
  have cleared: "stale_survey\<lparr>vnD_cache := None\<rparr> = point_survey"
    by (simp add: stale_survey_def point_survey_def)
  have stored: "stale_survey\<lparr>vnD_cache := Some (IntArray [5, 1, 5])\<rparr> =
      point_survey\<lparr>vnD_cache := Some (IntArray [5, 1, 5])\<rparr>"
    by (simp add: stale_survey_def)
  from nD_follows_vnD_cache [of stale_survey "[7, 7]"] c t
  obtain w where first: "nD stale_survey =
        \<lparr>result = Inr (int64 (sum_list [7, 7])), self_after = stale_survey, printed = []\<rparr>"
    and w: "nD (stale_survey\<lparr>vnD_cache := None\<rparr>) =
              \<lparr>result = Inr (int64 (sum_list w)),
               self_after = stale_survey\<lparr>vnD_cache := Some (IntArray w)\<rparr>,
               printed = [w]\<rparr>"
      "vnD (stale_survey\<lparr>vnD_cache := Some (IntArray w)\<rparr>) =
              \<lparr>result = Inr (IntArray w),
               self_after = stale_survey\<lparr>vnD_cache := Some (IntArray w)\<rparr>,
               printed = []\<rparr>"
      "nD (stale_survey\<lparr>vnD_cache := Some (IntArray w)\<rparr>) =
              \<lparr>result = Inr (int64 (sum_list w)),
               self_after = stale_survey\<lparr>vnD_cache := Some (IntArray w)\<rparr>,
               printed = []\<rparr>"
    by blast
  have "printed (nD point_survey) = [[5, 1, 5]]"
    by (simp add: nD_printed vnD_point_survey)
  with w(1) cleared have "w = [5, 1, 5]" by simp
  with first w c t show ?thesis by (simp add: int64_def)
qed

end
